theory Spec2Isabelle
  imports Main
begin

section \<open>Exceptions and identities\<close>

text \<open>
  The exceptions that occur. \<open>KeyError\<close> to \<open>TypeError\<close> are the built-in classes the
  two modules raise; \<open>UserError\<close> stands for whatever subclass of \<^verbatim>\<open>Exception\<close>
  application code raises inside a callback. \<open>CancelledError\<close>
  (\<^verbatim>\<open>asyncio.CancelledError\<close>, raised inside a task that is cancelled),
  \<open>KeyboardInterrupt\<close> and \<open>SystemExit\<close> derive from \<^verbatim>\<open>BaseException\<close> and not
  from \<^verbatim>\<open>Exception\<close>. \<open>is_Exception\<close> is \<^verbatim>\<open>isinstance(error, Exception)\<close>, the
  test of an \<^verbatim>\<open>except Exception\<close> clause.
\<close>

datatype exn = KeyError | ValueError | AttributeError | AssertionError | TypeError
  | UserError string | CancelledError | KeyboardInterrupt | SystemExit

fun is_Exception :: "exn \<Rightarrow> bool" where
  "is_Exception CancelledError = False"
| "is_Exception KeyboardInterrupt = False"
| "is_Exception SystemExit = False"
| "is_Exception error = True"

text \<open>
  An item handler is a Python object, compared and hashed by identity: it is modelled by
  its identity. A routing key is either a component identifier (a \<^verbatim>\<open>str\<close>) or a
  message identifier (a Snowflake, an \<^verbatim>\<open>int\<close>); a string never equals an integer
  in Python, so the two kinds are disjoint. \<open>NoneKey\<close> is Python's \<^verbatim>\<open>None\<close>, which
  a dictionary accepts as a key: the \<^verbatim>\<open>custom_id\<close> of an item that has none.

  The truth value of a handler object, which \<^verbatim>\<open>if handler\<close>, \<^verbatim>\<open>or\<close> and
  \<^verbatim>\<open>not\<close> test, is decided by the class \<^verbatim>\<open>ItemHandler\<close> of
  miru/abc/item_handler.py, which is not among the sources: it is the parameter
  \<open>truthy\<close> of the functions that test it. A handler need not be truthy: a class
  that is a sequence gives its empty instances the truth value false, and then a view
  without items is falsy.
\<close>

type_synonym handler = nat

datatype key = CustomId string | MessageId nat | NoneKey

section \<open>miru/events.py: the event manager\<close>

text \<open>
  \<^verbatim>\<open>
  class EventManager:
      def __init__(self) -> None:
          self.reg: dict[str, item.ItemHandler] = {}
          self.item_handlers: dict[item.ItemHandler, list[str]] = {}
  \<close>
\<close>

record EventManager =
  reg :: "key \<rightharpoonup> handler"
  item_handlers :: "handler \<rightharpoonup> key list"

definition EventManager_init :: EventManager where
  "EventManager_init = \<lparr>reg = Map.empty, item_handlers = Map.empty\<rparr>"

text \<open>
  \<^verbatim>\<open>
  def pop(self, item_handler):
      for custom_id in self.item_handlers[item_handler]:
          self.reg.pop(custom_id, None)
      self.item_handlers.pop(item_handler)
  \<close>
  The subscript raises \<^verbatim>\<open>KeyError\<close> before anything is changed when the handler
  has no entry. The result is the exception that leaves the call, if any, and the manager
  as the call leaves it.
\<close>

fun pop_loop :: "key list \<Rightarrow> (key \<rightharpoonup> handler) \<Rightarrow> (key \<rightharpoonup> handler)" where
  "pop_loop [] r = r"
| "pop_loop (custom_id # custom_ids) r = pop_loop custom_ids (r(custom_id := None))"

definition pop :: "handler \<Rightarrow> EventManager \<Rightarrow> exn option \<times> EventManager" where
  "pop item_handler em =
     (case item_handlers em item_handler of
        None \<Rightarrow> (Some KeyError, em)
      | Some custom_ids \<Rightarrow>
          (None, \<lparr>reg = pop_loop custom_ids (reg em),
                  item_handlers = (item_handlers em)(item_handler := None)\<rparr>))"

text \<open>
  \<^verbatim>\<open>
  def get(self, custom_id) -> item.ItemHandler | None:
      return self.reg.get(custom_id)
  \<close>
\<close>

definition get :: "EventManager \<Rightarrow> key \<Rightarrow> handler option" where
  "get em custom_id = reg em custom_id"

text \<open>
  What a call does to the handlers and to the registry, in order: \<open>Stop h\<close> is the call
  \<^verbatim>\<open>h.stop()\<close>, \<open>SetReg k h\<close> the assignment \<^verbatim>\<open>self.reg[k] = h\<close>.
\<close>

datatype reg_effect = Stop handler | SetReg key handler

text \<open>
  Modelled from the spec: \<^verbatim>\<open>ItemHandler.stop\<close> lives in miru/abc/item_handler.py,
  which is not among the sources. The spec says that the owner "is stopped (its timeout
  supervision cancelled, its state marked terminated)", that "all its routing keys must
  be purged from Registry atomically with its own stop", and that "stopping a Handler
  cancels its timeout supervision and removes it from the Registry". So \<open>stop\<close> marks
  the handler, which is the effect \<open>Stop\<close>, and removes it from the registry with the
  registry's own \<open>pop\<close>; an exception of \<open>pop\<close> leaves \<open>stop\<close>.
\<close>

definition stop :: "handler \<Rightarrow> EventManager
    \<Rightarrow> exn option \<times> reg_effect list \<times> EventManager" where
  "stop handler em = (case pop handler em of (r, em') \<Rightarrow> (r, [Stop handler], em'))"

text \<open>
  \<^verbatim>\<open>
  def add(self, item_handler, *custom_ids):
      for custom_id in custom_ids:
          if handler := self.reg.get(custom_id):
              handler.stop()
          self.reg[custom_id] = item_handler
      self.item_handlers[item_handler] = custom_ids
  \<close>
  The walrus test is a truth test: \<open>evict\<close> stops the owner of the key when there is
  one and it is truthy. An exception of \<^verbatim>\<open>stop\<close> leaves the loop and the call at
  once, before the key is assigned and before the key set is recorded.
\<close>

definition evict :: "(handler \<Rightarrow> bool) \<Rightarrow> handler option \<Rightarrow> EventManager
    \<Rightarrow> exn option \<times> reg_effect list \<times> EventManager" where
  "evict truthy owner em =
     (case owner of
        None \<Rightarrow> (None, [], em)
      | Some handler \<Rightarrow> if truthy handler then stop handler em else (None, [], em))"

fun add_loop :: "(handler \<Rightarrow> bool) \<Rightarrow> handler \<Rightarrow> key list \<Rightarrow> EventManager
    \<Rightarrow> exn option \<times> reg_effect list \<times> EventManager" where
  "add_loop truthy item_handler [] em = (None, [], em)"
| "add_loop truthy item_handler (custom_id # custom_ids) em =
     (case evict truthy (reg em custom_id) em of
        (Some error, effs, em1) \<Rightarrow> (Some error, effs, em1)
      | (None, effs, em1) \<Rightarrow>
          (case add_loop truthy item_handler custom_ids
                  (em1\<lparr>reg := (reg em1)(custom_id \<mapsto> item_handler)\<rparr>) of
             (r, effs', em2) \<Rightarrow> (r, effs @ SetReg custom_id item_handler # effs', em2)))"

definition add :: "(handler \<Rightarrow> bool) \<Rightarrow> handler \<Rightarrow> key list \<Rightarrow> EventManager
    \<Rightarrow> exn option \<times> reg_effect list \<times> EventManager" where
  "add truthy item_handler custom_ids em =
     (case add_loop truthy item_handler custom_ids em of
        (Some error, effs, em') \<Rightarrow> (Some error, effs, em')
      | (None, effs, em') \<Rightarrow>
          (None, effs,
           em'\<lparr>item_handlers := (item_handlers em')(item_handler \<mapsto> custom_ids)\<rparr>))"

text \<open>
  A sequence of calls of \<open>add\<close>, one after the other, up to the first call that raises;
  the effects are concatenated.
\<close>

fun add_all :: "(handler \<Rightarrow> bool) \<Rightarrow> (handler \<times> key list) list \<Rightarrow> EventManager
    \<Rightarrow> exn option \<times> reg_effect list \<times> EventManager" where
  "add_all truthy [] em = (None, [], em)"
| "add_all truthy ((h, ks) # calls) em =
     (case add truthy h ks em of
        (Some error, effs, em') \<Rightarrow> (Some error, effs, em')
      | (None, effs, em') \<Rightarrow>
          (case add_all truthy calls em' of
             (r, effs', em'') \<Rightarrow> (r, effs @ effs', em'')))"

section \<open>Inbound events\<close>

text \<open>
  A \<^verbatim>\<open>hikari.InteractionCreateEvent\<close> carries one interaction. \<open>kind\<close> is the class
  of the interaction object, which the \<^verbatim>\<open>isinstance\<close> tests read. \<open>message\<close> is the
  identifier of the message the interaction was issued against, \<open>None\<close> when the
  interaction has no message (a modal opened from a command); a message object is truthy.
  Only component and modal interactions have a \<^verbatim>\<open>custom_id\<close>: the code reads the
  field of no other kind.
\<close>

datatype kind = Component | Modal | Command | Autocomplete

record interaction =
  inter_id :: nat
  kind :: kind
  inter_custom_id :: string
  message :: "nat option"

record InteractionCreateEvent =
  interaction :: interaction

text \<open>
  \<^verbatim>\<open>
  async def on_inter(event: hikari.InteractionCreateEvent) -> None:
      if not isinstance(event.interaction, (hikari.ComponentInteraction, hikari.ModalInteraction)):
          return
      if not event.interaction.message:
          return
      item_handler = (
          _events.get(event.interaction.custom_id)
          or _events.get(event.interaction.message.id)
      )
      if not item_handler:
          return
      await item_handler._process_interactions(event)
  \<close>
  \<^verbatim>\<open>_process_interactions\<close> is a method of the handler object that the lookup
  returns: it is the parameter \<open>process\<close>, which acts on the rest of the program state
  \<open>w\<close> and may raise. A dropped event returns at once: no exception, \<open>w\<close> as it was.
  \<^verbatim>\<open>or\<close> yields its first operand when that is truthy and its second otherwise;
  \<^verbatim>\<open>None\<close> is falsy, and so may a handler be.
\<close>

definition py_or :: "(handler \<Rightarrow> bool) \<Rightarrow> handler option \<Rightarrow> handler option
    \<Rightarrow> handler option" where
  "py_or truthy a b = (case a of None \<Rightarrow> b | Some x \<Rightarrow> if truthy x then Some x else b)"

definition on_inter :: "(handler \<Rightarrow> bool)
    \<Rightarrow> (handler \<Rightarrow> InteractionCreateEvent \<Rightarrow> 'w \<Rightarrow> exn option \<times> 'w)
    \<Rightarrow> EventManager \<Rightarrow> InteractionCreateEvent \<Rightarrow> 'w \<Rightarrow> exn option \<times> 'w" where
  "on_inter truthy process events event w =
     (if \<not> (kind (interaction event) = Component \<or> kind (interaction event) = Modal)
      then (None, w)
      else case message (interaction event) of
        None \<Rightarrow> (None, w)
      | Some message_id \<Rightarrow>
          (case py_or truthy (get events (CustomId (inter_custom_id (interaction event))))
                  (get events (MessageId message_id)) of
             None \<Rightarrow> (None, w)
           | Some item_handler \<Rightarrow>
               if \<not> truthy item_handler then (None, w)
               else process item_handler event w))"

section \<open>miru/view.py: the view\<close>

text \<open>
  An item of a view. \<open>custom_id\<close> is absent for a link button. \<open>is_ViewItem\<close> is the
  \<^verbatim>\<open>isinstance(item, ViewItem)\<close> test; \<open>persistent\<close> is the attribute
  \<^verbatim>\<open>_persistent\<close>, which the code reads of a \<^verbatim>\<open>ViewItem\<close> only.
\<close>

record Item =
  custom_id :: "string option"
  is_ViewItem :: bool
  persistent :: bool

text \<open>\<^verbatim>\<open>ViewContext(view, interaction)\<close>: the view is held by its identity.\<close>

record ViewContext =
  ctx_view :: handler
  ctx_interaction :: interaction

text \<open>
  The attributes of a \<^verbatim>\<open>View\<close> that these methods read or write. \<open>timeout\<close> is a
  duration in the source; the methods here only test whether it is \<^verbatim>\<open>None\<close>.
  \<open>priv_last_context\<close> is \<^verbatim>\<open>_last_context\<close> and \<open>priv_inputted\<close> is the flag of
  the \<^verbatim>\<open>asyncio.Event\<close> \<^verbatim>\<open>_inputted\<close>.
\<close>

record View =
  view_id :: handler
  children :: "Item list"
  timeout :: "nat option"
  autodefer :: bool
  priv_last_context :: "ViewContext option"
  priv_inputted :: bool

text \<open>
  \<^verbatim>\<open>
  @property
  def is_persistent(self) -> bool:
      return self.timeout is None and all(
          isinstance(item, ViewItem) and item._persistent for item in self.children)
  \<close>
\<close>

fun py_all :: "bool list \<Rightarrow> bool" where
  "py_all [] = True"
| "py_all (b # bs) = (if b then py_all bs else False)"

definition is_persistent :: "View \<Rightarrow> bool" where
  "is_persistent self =
     (timeout self = None \<and>
      py_all (map (\<lambda>item. is_ViewItem item \<and> persistent item) (children self)))"

text \<open>
  \<^verbatim>\<open>
  @property
  def last_context(self) -> t.Optional[ViewContext]:
      assert isinstance(self._last_context, ViewContext)
      return self._last_context
  \<close>
  \<^verbatim>\<open>None\<close> is not an instance of \<^verbatim>\<open>ViewContext\<close>. (Assertions are executed:
  the interpreter runs without \<^verbatim>\<open>-O\<close>.)
\<close>

definition last_context :: "View \<Rightarrow> exn + ViewContext" where
  "last_context self =
     (case priv_last_context self of
        None \<Rightarrow> Inl AssertionError
      | Some context \<Rightarrow> Inr context)"

text \<open>
  \<^verbatim>\<open>
  def get_context(self, interaction, *, cls=ViewContext) -> ViewContext:
      return cls(self, interaction)

  async def view_check(self, context: ViewContext) -> bool:
      return True
  \<close>
\<close>

definition get_context :: "View \<Rightarrow> interaction \<Rightarrow> ViewContext" where
  "get_context self ia = \<lparr>ctx_view = view_id self, ctx_interaction = ia\<rparr>"

definition view_check :: "View \<Rightarrow> ViewContext \<Rightarrow> bool" where
  "view_check self context = True"

subsection \<open>The state a task runs in, and what it does to the outside\<close>

text \<open>
  \<open>view\<close> is \<^verbatim>\<open>self\<close>. \<open>now\<close> is the reading of \<^verbatim>\<open>datetime.datetime.now()\<close>
  in microseconds, the resolution of a \<^verbatim>\<open>datetime\<close>. \<open>issued_response\<close> holds the
  identifiers of the interactions whose \<^verbatim>\<open>_issued_response\<close> flag is set.
\<close>

record state =
  view :: View
  now :: int
  issued_response :: "nat set"

text \<open>
  What a method does to the outside, in order: \<open>WakeWaiters\<close> is
  \<^verbatim>\<open>self._inputted.set()\<close> releasing the tasks blocked in \<^verbatim>\<open>wait_for_input\<close>;
  \<open>Refresh\<close>, \<open>Callback\<close> and \<open>Defer\<close> are the calls of \<^verbatim>\<open>item._refresh\<close>,
  \<^verbatim>\<open>item.callback\<close> and \<^verbatim>\<open>context.defer\<close>; \<open>OnError\<close> is the call of
  \<^verbatim>\<open>self.on_error\<close>, \<open>Stderr\<close> and \<open>Traceback\<close> are what it prints;
  \<open>CreateTask\<close> is \<^verbatim>\<open>self._create_task(self._handle_callback(item, context))\<close>.
\<close>

datatype message_line = IgnoringForItem handler Item | Ignoring handler

datatype effect =
    WakeWaiters
  | Refresh Item interaction
  | Callback Item ViewContext
  | Defer ViewContext
  | OnError exn "Item option" "ViewContext option"
  | Stderr message_line
  | Traceback exn
  | CreateTask Item ViewContext

text \<open>
  The code of the application and of the modules that are not among the sources:
  \<^verbatim>\<open>item._refresh\<close>, \<^verbatim>\<open>item.callback\<close> and \<^verbatim>\<open>context.defer\<close>. Each acts
  on the state, takes its time (it moves \<open>now\<close>), and returns the exception it raises,
  if any. \<open>item_truthy\<close> is the truth value of an item object, which the class
  \<^verbatim>\<open>Item\<close> of miru/abc/item.py decides.
\<close>

record env =
  refresh :: "Item \<Rightarrow> interaction \<Rightarrow> state \<Rightarrow> exn option \<times> state"
  callback :: "Item \<Rightarrow> ViewContext \<Rightarrow> state \<Rightarrow> exn option \<times> state"
  context_defer :: "ViewContext \<Rightarrow> state \<Rightarrow> exn option \<times> state"
  item_truthy :: "Item \<Rightarrow> bool"

text \<open>
  \<^verbatim>\<open>
  async def on_error(self, error, item=None, context=None) -> None:
      if item:
          print(f"Ignoring exception in view {self} for item {item}:", file=sys.stderr)
      else:
          print(f"Ignoring exception in view {self}:", file=sys.stderr)
      traceback.print_exception(error.__class__, error, error.__traceback__, file=sys.stderr)
  \<close>
  It returns normally and changes nothing in the state. \<^verbatim>\<open>if item\<close> is a truth
  test: \<^verbatim>\<open>None\<close> is falsy, and an item is as \<open>truthy\<close> says.
\<close>

definition on_error :: "(Item \<Rightarrow> bool) \<Rightarrow> View \<Rightarrow> exn \<Rightarrow> Item option
    \<Rightarrow> ViewContext option \<Rightarrow> effect list" where
  "on_error truthy self error item context =
     [OnError error item context,
      (case item of
         Some i \<Rightarrow>
           if truthy i then Stderr (IgnoringForItem (view_id self) i)
           else Stderr (Ignoring (view_id self))
       | None \<Rightarrow> Stderr (Ignoring (view_id self))),
      Traceback error]"

text \<open>
  \<^verbatim>\<open>
  async def _handle_callback(self, item: ViewItem, context: ViewContext) -> None:
      try:
          now = datetime.datetime.now()
          self._inputted.set()
          self._inputted.clear()

          await item._refresh(context.interaction)
          await item.callback(context)

          if not context.interaction._issued_response and self.autodefer:
              if (datetime.datetime.now() - now).total_seconds() <= 3:
                  await context.defer()

      except Exception as error:
          await self.on_error(error, item, context)
  \<close>
  \<open>handle_callback_try\<close> is the body of the \<^verbatim>\<open>try\<close>: it returns the exception that
  leaves the body, if any, with the effects so far and the state at that moment. The
  \<^verbatim>\<open>except\<close> clause catches an instance of \<^verbatim>\<open>Exception\<close>; any other
  exception leaves the task.
  \<^verbatim>\<open>total_seconds()\<close> divides the microseconds of the difference by \<open>10\<^sup>6\<close>, so the
  test \<^verbatim>\<open><= 3\<close> is \<open>\<le> 3000000\<close> microseconds.
\<close>

definition inputted_set_clear :: "state \<Rightarrow> state" where
  "inputted_set_clear s =
     (let s1 = s\<lparr>view := (view s)\<lparr>priv_inputted := True\<rparr>\<rparr>
      in s1\<lparr>view := (view s1)\<lparr>priv_inputted := False\<rparr>\<rparr>)"

definition autodefer_due :: "ViewContext \<Rightarrow> int \<Rightarrow> state \<Rightarrow> bool" where
  "autodefer_due context start s =
     ((inter_id (ctx_interaction context) \<notin> issued_response s \<and> autodefer (view s))
      \<and> now s - start \<le> 3000000)"

definition handle_callback_try :: "env \<Rightarrow> Item \<Rightarrow> ViewContext \<Rightarrow> state
    \<Rightarrow> exn option \<times> effect list \<times> state" where
  "handle_callback_try e item context s =
     (let start = now s;
          s2 = inputted_set_clear s
      in case refresh e item (ctx_interaction context) s2 of
           (Some error, s3) \<Rightarrow>
             (Some error, [WakeWaiters, Refresh item (ctx_interaction context)], s3)
         | (None, s3) \<Rightarrow>
             (case callback e item context s3 of
                (Some error, s4) \<Rightarrow>
                  (Some error,
                   [WakeWaiters, Refresh item (ctx_interaction context), Callback item context],
                   s4)
              | (None, s4) \<Rightarrow>
                  if autodefer_due context start s4
                  then (case context_defer e context s4 of
                          (r, s5) \<Rightarrow>
                            (r,
                             [WakeWaiters, Refresh item (ctx_interaction context),
                              Callback item context, Defer context],
                             s5))
                  else (None,
                        [WakeWaiters, Refresh item (ctx_interaction context),
                         Callback item context],
                        s4)))"

definition handle_callback :: "env \<Rightarrow> Item \<Rightarrow> ViewContext \<Rightarrow> state
    \<Rightarrow> exn option \<times> effect list \<times> state" where
  "handle_callback e item context s =
     (case handle_callback_try e item context s of
        (None, effs, s') \<Rightarrow> (None, effs, s')
      | (Some error, effs, s') \<Rightarrow>
          if is_Exception error
          then (None,
                effs @ on_error (item_truthy e) (view s') error (Some item) (Some context),
                s')
          else (Some error, effs, s'))"

text \<open>
  \<^verbatim>\<open>
  async def _process_interactions(self, event: hikari.InteractionCreateEvent) -> None:
      if isinstance(event.interaction, hikari.ComponentInteraction):
          interaction = ComponentInteraction.from_hikari(event.interaction)
          items = [item for item in self.children if item.custom_id == interaction.custom_id]
          if len(items) > 0:
              context = self.get_context(interaction)
              self._last_context = context
              passed = await self.view_check(context)
              if not passed:
                  return
              for item in items:
                  assert isinstance(item, ViewItem)
                  self._create_task(self._handle_callback(item, context))
  \<close>
  \<^verbatim>\<open>from_hikari\<close> copies the interaction. The loop creates one task per item and stops
  with \<^verbatim>\<open>AssertionError\<close> at the first item that is not a \<^verbatim>\<open>ViewItem\<close>, the
  earlier tasks being created already.
\<close>

fun create_tasks :: "Item list \<Rightarrow> ViewContext \<Rightarrow> exn option \<times> effect list" where
  "create_tasks [] context = (None, [])"
| "create_tasks (item # items) context =
     (if \<not> is_ViewItem item then (Some AssertionError, [])
      else case create_tasks items context of
             (r, effs) \<Rightarrow> (r, CreateTask item context # effs))"

definition process_interactions :: "InteractionCreateEvent \<Rightarrow> state
    \<Rightarrow> exn option \<times> effect list \<times> state" where
  "process_interactions event s =
     (if kind (interaction event) = Component then
        (let ia = interaction event;
             items = filter (\<lambda>item. custom_id item = Some (inter_custom_id ia))
                       (children (view s))
         in if length items > 0 then
              (let context = get_context (view s) ia;
                   s' = s\<lparr>view := (view s)\<lparr>priv_last_context := Some context\<rparr>\<rparr>;
                   passed = view_check (view s') context
               in if \<not> passed then (None, [], s')
                  else case create_tasks items context of
                         (r, effs) \<Rightarrow> (r, effs, s'))
            else (None, [], s))
      else (None, [], s))"

text \<open>
  \<^verbatim>\<open>
  def start_listener(self) -> None:
      if not self.is_persistent:
          raise ValueError("This can only be used on persistent views.")
      _events.subscribe(self, *[item.custom_id for item in self._children])
  \<close>
  \<^verbatim>\<open>_events\<close> is the \<^verbatim>\<open>EventManager\<close> of miru/events.py. Python looks the
  attribute \<^verbatim>\<open>subscribe\<close> up on it before it evaluates the arguments. The class body
  defines \<^verbatim>\<open>__init__\<close>, \<^verbatim>\<open>add\<close>, \<^verbatim>\<open>pop\<close> and \<^verbatim>\<open>get\<close>, and nothing
  else; \<open>EventManager_getattr\<close> gives the method of a name that can take a handler and
  any number of keys, and \<open>None\<close> where the lookup raises \<^verbatim>\<open>AttributeError\<close>.
  \<^verbatim>\<open>pop\<close> and \<^verbatim>\<open>get\<close> take one argument: with more, the call raises
  \<^verbatim>\<open>TypeError\<close>.
\<close>

type_synonym bound_method = "handler \<Rightarrow> key list \<Rightarrow> EventManager
    \<Rightarrow> exn option \<times> reg_effect list \<times> EventManager"

definition EventManager_getattr :: "(handler \<Rightarrow> bool) \<Rightarrow> string \<Rightarrow> bound_method option" where
  "EventManager_getattr truthy name =
     (if name = ''add'' then Some (add truthy)
      else if name = ''pop'' then
        Some (\<lambda>h ks em. if ks = [] then (case pop h em of (r, em') \<Rightarrow> (r, [], em'))
                         else (Some TypeError, [], em))
      else if name = ''get'' then
        Some (\<lambda>h ks em. if ks = [] then (None, [], em) else (Some TypeError, [], em))
      else if name = ''__init__'' then
        Some (\<lambda>h ks em. (Some TypeError, [], em))
      else None)"

definition item_key :: "Item \<Rightarrow> key" where
  "item_key item = (case custom_id item of None \<Rightarrow> NoneKey | Some c \<Rightarrow> CustomId c)"

definition start_listener :: "(handler \<Rightarrow> bool) \<Rightarrow> View \<Rightarrow> EventManager
    \<Rightarrow> exn option \<times> reg_effect list \<times> EventManager" where
  "start_listener truthy self events =
     (if \<not> is_persistent self then (Some ValueError, [], events)
      else case EventManager_getattr truthy ''subscribe'' of
             None \<Rightarrow> (Some AttributeError, [], events)
           | Some subscribe \<Rightarrow> subscribe (view_id self) (map item_key (children self)) events)"

section \<open>Reading the effects, and example data\<close>

text \<open>
  Two ways of writing a registry down: \<open>assign h ks r\<close> is \<open>r\<close> with every key of
  \<open>ks\<close> owned by \<open>h\<close>, and \<open>registered g gs\<close> is the manager in which \<open>g\<close> is
  registered under the keys \<open>gs\<close> and nothing else is.
\<close>

definition assign :: "handler \<Rightarrow> key list \<Rightarrow> (key \<rightharpoonup> handler) \<Rightarrow> (key \<rightharpoonup> handler)" where
  "assign h ks r = (\<lambda>c. if c \<in> set ks then Some h else r c)"

definition registered :: "handler \<Rightarrow> key list \<Rightarrow> EventManager" where
  "registered g gs = \<lparr>reg = assign g gs Map.empty, item_handlers = [g \<mapsto> gs]\<rparr>"

text \<open>The calls of \<^verbatim>\<open>stop\<close> among the effects of the registry, in order.\<close>

fun is_Stop :: "reg_effect \<Rightarrow> bool" where
  "is_Stop (Stop h) = True"
| "is_Stop (SetReg k h) = False"

definition stop_calls :: "reg_effect list \<Rightarrow> reg_effect list" where
  "stop_calls effs = filter is_Stop effs"



text \<open>
  Concrete values at which the theorems below are instantiated: a button of a view, a
  view with identity 1, a click on the component \<open>c\<close> of message 7, a modal submission,
  a slash command, and a state with the clock at 0 in which no reply has been issued.
\<close>

definition button :: "string \<Rightarrow> bool \<Rightarrow> Item" where
  "button c p = \<lparr>custom_id = Some c, is_ViewItem = True, persistent = p\<rparr>"

definition example_view :: "Item list \<Rightarrow> nat option \<Rightarrow> View" where
  "example_view items t = \<lparr>view_id = 1, children = items, timeout = t, autodefer = True,
     priv_last_context = None, priv_inputted = False\<rparr>"

definition two_buttons :: View where
  "two_buttons = example_view [button ''a'' True, button ''b'' True] None"

definition click :: "string \<Rightarrow> InteractionCreateEvent" where
  "click c = \<lparr>interaction = \<lparr>inter_id = 10, kind = Component, inter_custom_id = c,
      message = Some 7\<rparr>\<rparr>"

definition modal_submit :: "string \<Rightarrow> nat option \<Rightarrow> InteractionCreateEvent" where
  "modal_submit c m = \<lparr>interaction = \<lparr>inter_id = 11, kind = Modal, inter_custom_id = c,
      message = m\<rparr>\<rparr>"

definition slash_command :: InteractionCreateEvent where
  "slash_command = \<lparr>interaction = \<lparr>inter_id = 12, kind = Command, inter_custom_id = [],
      message = None\<rparr>\<rparr>"

definition click_a_context :: ViewContext where
  "click_a_context = get_context two_buttons (interaction (click ''a''))"

definition example_state :: "View \<Rightarrow> state" where
  "example_state v = \<lparr>view = v, now = 0, issued_response = {}\<rparr>"

text \<open>
  Application code: a refresh that succeeds, a callback that takes \<open>d\<close> microseconds,
  issues no reply and ends with \<open>r\<close> (an exception, or \<open>None\<close> for a normal return),
  and a deferred reply that succeeds and sets the flag of the interaction; every item
  is truthy.
\<close>

definition example_env :: "int \<Rightarrow> exn option \<Rightarrow> env" where
  "example_env d r =
     \<lparr>refresh = (\<lambda>item ia s. (None, s)),
      callback = (\<lambda>item context s. (r, s\<lparr>now := now s + d\<rparr>)),
      context_defer = (\<lambda>context s.
        (None, s\<lparr>issued_response :=
                   insert (inter_id (ctx_interaction context)) (issued_response s)\<rparr>)),
      item_truthy = (\<lambda>item. True)\<rparr>"

text \<open>A delegate for \<open>on_inter\<close> that records the handler it is called on.\<close>

definition record_delegate :: "handler \<Rightarrow> InteractionCreateEvent \<Rightarrow> handler list
    \<Rightarrow> exn option \<times> handler list" where
  "record_delegate h event w = (None, w @ [h])"

text \<open>
  Truth values of handlers: every handler truthy; and handler 1 falsy (a view without
  items), every other one truthy.
\<close>

definition all_truthy :: "handler \<Rightarrow> bool" where
  "all_truthy h = True"

definition falsy_1 :: "handler \<Rightarrow> bool" where
  "falsy_1 h = (h \<noteq> 1)"

text \<open>A manager in which handler 1 owns the component \<open>a\<close> and handler 2 the message 7.\<close>

definition example_events :: EventManager where
  "example_events = \<lparr>reg = [CustomId ''a'' \<mapsto> 1, MessageId 7 \<mapsto> 2],
     item_handlers = [1 \<mapsto> [CustomId ''a''], 2 \<mapsto> [MessageId 7]]\<rparr>"

section \<open>Properties of the event manager\<close>

lemma stop_effects: "fst (snd (stop g em)) = [Stop g]"
  by (simp add: stop_def split_beta)

lemma stop_item_handlers_other:
  "g \<noteq> h \<Longrightarrow> item_handlers (snd (snd (stop g em))) h = item_handlers em h"
  by (simp add: stop_def pop_def split_beta split: option.splits)

lemma evict_item_handlers:
  "Stop h \<notin> set (fst (snd (evict truthy owner em))) \<Longrightarrow>
   item_handlers (snd (snd (evict truthy owner em))) h = item_handlers em h"
  by (auto simp: evict_def stop_effects stop_item_handlers_other split: option.splits if_splits)

lemma add_loop_Cons_raise:
  "fst (evict truthy (reg em k) em) = Some error \<Longrightarrow>
   add_loop truthy h (k # ks) em = evict truthy (reg em k) em"
  by (cases "evict truthy (reg em k) em") auto

lemma add_loop_Cons_pass:
  "fst (evict truthy (reg em k) em) = None \<Longrightarrow>
   add_loop truthy h (k # ks) em =
     (let em1 = snd (snd (evict truthy (reg em k) em));
          rest = add_loop truthy h ks (em1\<lparr>reg := (reg em1)(k \<mapsto> h)\<rparr>)
      in (fst rest,
          fst (snd (evict truthy (reg em k) em)) @ SetReg k h # fst (snd rest),
          snd (snd rest)))"
  by (cases "evict truthy (reg em k) em") (auto simp: Let_def split: prod.splits)

lemma add_loop_item_handlers:
  "Stop h \<notin> set (fst (snd (add_loop truthy h' ks em))) \<Longrightarrow>
   item_handlers (snd (snd (add_loop truthy h' ks em))) h = item_handlers em h"
proof (induction ks arbitrary: em)
  case Nil
  then show ?case by simp
next
  case (Cons k ks)
  show ?case
  proof (cases "fst (evict truthy (reg em k) em)")
    case (Some error)
    from Cons.prems show ?thesis
      unfolding add_loop_Cons_raise [OF Some] by (rule evict_item_handlers)
  next
    case None
    let ?em1 = "snd (snd (evict truthy (reg em k) em))"
    let ?em2 = "?em1\<lparr>reg := (reg ?em1)(k \<mapsto> h')\<rparr>"
    from Cons.prems have a: "Stop h \<notin> set (fst (snd (evict truthy (reg em k) em)))"
      and b: "Stop h \<notin> set (fst (snd (add_loop truthy h' ks ?em2)))"
      unfolding add_loop_Cons_pass [OF None] by (simp_all add: Let_def)
    have "item_handlers (snd (snd (add_loop truthy h' ks ?em2))) h = item_handlers ?em2 h"
      by (rule Cons.IH [OF b])
    also have "\<dots> = item_handlers em h"
      using evict_item_handlers [OF a] by simp
    finally show ?thesis
      unfolding add_loop_Cons_pass [OF None] by (simp add: Let_def)
  qed
qed

lemma add_effects: "fst (snd (add truthy h ks em)) = fst (snd (add_loop truthy h ks em))"
  by (simp add: add_def split: prod.splits option.splits)

lemma add_item_handlers_other:
  "h' \<noteq> h \<Longrightarrow> Stop h \<notin> set (fst (snd (add truthy h' ks em))) \<Longrightarrow>
   item_handlers (snd (snd (add truthy h' ks em))) h = item_handlers em h"
  unfolding add_effects
  using add_loop_item_handlers [of h truthy h' ks em]
  by (auto simp: add_def split: prod.splits option.splits)

lemma add_recorded:
  "add truthy h ks em = (None, effs, em') \<Longrightarrow> item_handlers em' h = Some ks"
  by (auto simp: add_def split: prod.splits option.splits)

lemma add_all_Cons_raise:
  "fst (add truthy h ks em) = Some error \<Longrightarrow>
   add_all truthy ((h, ks) # calls) em = add truthy h ks em"
  by (cases "add truthy h ks em") auto

lemma add_all_Cons_pass:
  "fst (add truthy h ks em) = None \<Longrightarrow>
   add_all truthy ((h, ks) # calls) em =
     (let rest = add_all truthy calls (snd (snd (add truthy h ks em)))
      in (fst rest, fst (snd (add truthy h ks em)) @ fst (snd rest), snd (snd rest)))"
  by (cases "add truthy h ks em") (auto simp: Let_def split: prod.splits)

lemma add_all_item_handlers_other:
  "\<forall>c \<in> set calls. fst c \<noteq> h \<Longrightarrow>
   Stop h \<notin> set (fst (snd (add_all truthy calls em))) \<Longrightarrow>
   item_handlers (snd (snd (add_all truthy calls em))) h = item_handlers em h"
proof (induction calls arbitrary: em)
  case Nil
  then show ?case by simp
next
  case (Cons c calls)
  obtain h' ks where c: "c = (h', ks)" by (cases c)
  from Cons.prems(1) c have ne: "h' \<noteq> h" and rest: "\<forall>c \<in> set calls. fst c \<noteq> h"
    by auto
  show ?case
  proof (cases "fst (add truthy h' ks em)")
    case (Some error)
    from Cons.prems(2) show ?thesis
      unfolding c add_all_Cons_raise [OF Some] by (rule add_item_handlers_other [OF ne])
  next
    case None
    let ?em1 = "snd (snd (add truthy h' ks em))"
    from Cons.prems(2) have a: "Stop h \<notin> set (fst (snd (add truthy h' ks em)))"
      and b: "Stop h \<notin> set (fst (snd (add_all truthy calls ?em1)))"
      unfolding c add_all_Cons_pass [OF None] by (simp_all add: Let_def)
    have "item_handlers (snd (snd (add_all truthy calls ?em1))) h = item_handlers ?em1 h"
      by (rule Cons.IH [OF rest b])
    also have "\<dots> = item_handlers em h"
      by (rule add_item_handlers_other [OF ne a])
    finally show ?thesis
      unfolding c add_all_Cons_pass [OF None] by (simp add: Let_def)
  qed
qed

lemma pop_loop_out: "k \<notin> set ks \<Longrightarrow> pop_loop ks r k = r k"
  by (induction ks arbitrary: r) auto

lemma pop_loop_in: "k \<in> set ks \<Longrightarrow> pop_loop ks r k = None"
proof (induction ks arbitrary: r)
  case Nil
  then show ?case by simp
next
  case (Cons a ks)
  show ?case
  proof (cases "k \<in> set ks")
    case True
    with Cons.IH show ?thesis by simp
  next
    case False
    with Cons.prems pop_loop_out [OF False, of "r(a := None)"] show ?thesis by simp
  qed
qed

lemma pop_loop_apply: "pop_loop ks r c = (if c \<in> set ks then None else r c)"
  by (simp add: pop_loop_in pop_loop_out)

lemma evict_None [simp]: "evict truthy None em = (None, [], em)"
  by (simp add: evict_def)

lemma evict_truthy_recorded:
  "truthy g \<Longrightarrow> item_handlers em g = Some gs \<Longrightarrow>
   evict truthy (Some g) em
   = (None, [Stop g],
      \<lparr>reg = pop_loop gs (reg em), item_handlers = (item_handlers em)(g := None)\<rparr>)"
  by (simp add: evict_def stop_def pop_def)

lemma assign_Cons_upd: "assign h ks (r(k \<mapsto> h)) = assign h (k # ks) r"
  by (auto simp: assign_def fun_eq_iff)

lemma add_loop_free:
  "distinct ks \<Longrightarrow> \<forall>c \<in> set ks. reg em c = None \<Longrightarrow>
   add_loop truthy h ks em
   = (None, map (\<lambda>c. SetReg c h) ks, em\<lparr>reg := assign h ks (reg em)\<rparr>)"
proof (induction ks arbitrary: em)
  case Nil
  then show ?case by (simp add: assign_def)
next
  case (Cons k ks)
  let ?em2 = "em\<lparr>reg := (reg em)(k \<mapsto> h)\<rparr>"
  from Cons.prems have free: "reg em k = None" and d: "distinct ks" and k: "k \<notin> set ks"
    by simp_all
  from Cons.prems k have "\<forall>c \<in> set ks. reg ?em2 c = None" by auto
  from Cons.IH [OF d this]
  have rest: "add_loop truthy h ks ?em2
      = (None, map (\<lambda>c. SetReg c h) ks, ?em2\<lparr>reg := assign h ks (reg ?em2)\<rparr>)" .
  show ?case
    by (simp add: free rest assign_Cons_upd)
qed

lemma add_loop_takeover:
  assumes "truthy g" and "distinct ks" and "set ks \<inter> set gs \<noteq> {}"
    and "item_handlers em g = Some gs"
    and "\<forall>c \<in> set gs. reg em c = Some g"
    and "\<forall>c \<in> set ks. c \<notin> set gs \<longrightarrow> reg em c = None"
  shows "add_loop truthy h ks em
     = (None,
        map (\<lambda>c. SetReg c h) (takeWhile (\<lambda>c. c \<notin> set gs) ks)
          @ Stop g # map (\<lambda>c. SetReg c h) (dropWhile (\<lambda>c. c \<notin> set gs) ks),
        \<lparr>reg = assign h ks (pop_loop gs (reg em)),
          item_handlers = (item_handlers em)(g := None)\<rparr>)"
  using assms
proof (induction ks arbitrary: em)
  case Nil
  then show ?case by simp
next
  case (Cons k ks)
  from Cons.prems have d: "distinct ks" and k: "k \<notin> set ks" by simp_all
  show ?case
  proof (cases "k \<in> set gs")
    case True
    with Cons.prems have owner: "reg em k = Some g" by simp
    let ?em1 = "\<lparr>reg = pop_loop gs (reg em), item_handlers = (item_handlers em)(g := None)\<rparr>"
    let ?em2 = "\<lparr>reg = (pop_loop gs (reg em))(k \<mapsto> h),
      item_handlers = (item_handlers em)(g := None)\<rparr>"
    have ev: "evict truthy (reg em k) em = (None, [Stop g], ?em1)"
      unfolding owner
      by (rule evict_truthy_recorded [where truthy = truthy and g = g,
            OF Cons.prems(1) Cons.prems(4)])
    have "\<forall>c \<in> set ks. reg ?em2 c = None"
      using Cons.prems(6) k by (auto simp: pop_loop_apply)
    from add_loop_free [OF d this]
    have rest: "add_loop truthy h ks ?em2
        = (None, map (\<lambda>c. SetReg c h) ks,
           \<lparr>reg = assign h (k # ks) (pop_loop gs (reg em)),
             item_handlers = (item_handlers em)(g := None)\<rparr>)"
      by (simp add: assign_Cons_upd)
    show ?thesis
      using True by (auto simp: ev rest fun_eq_iff)
  next
    case False
    with Cons.prems have free: "reg em k = None" by simp
    let ?em2 = "em\<lparr>reg := (reg em)(k \<mapsto> h)\<rparr>"
    from Cons.prems(3) False have inter: "set ks \<inter> set gs \<noteq> {}" by auto
    have ih: "item_handlers ?em2 g = Some gs" using Cons.prems(4) by simp
    have own: "\<forall>c \<in> set gs. reg ?em2 c = Some g" using Cons.prems(5) False by auto
    have fr: "\<forall>c \<in> set ks. c \<notin> set gs \<longrightarrow> reg ?em2 c = None"
      using Cons.prems(6) k by auto
    from Cons.IH [OF Cons.prems(1) d inter ih own fr]
    have rest: "add_loop truthy h ks ?em2
     = (None,
        map (\<lambda>c. SetReg c h) (takeWhile (\<lambda>c. c \<notin> set gs) ks)
          @ Stop g # map (\<lambda>c. SetReg c h) (dropWhile (\<lambda>c. c \<notin> set gs) ks),
        \<lparr>reg = assign h ks (pop_loop gs (reg ?em2)),
          item_handlers = (item_handlers ?em2)(g := None)\<rparr>)" .
    have regs: "assign h ks (pop_loop gs ((reg em)(k \<mapsto> h)))
        = assign h (k # ks) (pop_loop gs (reg em))"
      using False by (auto simp: assign_def pop_loop_apply fun_eq_iff)
    show ?thesis
      using False by (auto simp: free rest regs fun_eq_iff)
  qed
qed

lemma add_first:
  "distinct ks \<Longrightarrow>
   add truthy h ks EventManager_init = (None, map (\<lambda>c. SetReg c h) ks, registered h ks)"
  using add_loop_free [of ks EventManager_init truthy h]
  by (simp add: add_def EventManager_init_def registered_def)

lemma add_takeover:
  assumes "truthy g" and "distinct ks" and "set ks \<inter> set gs \<noteq> {}"
  shows "add truthy h ks (registered g gs)
     = (None,
        map (\<lambda>c. SetReg c h) (takeWhile (\<lambda>c. c \<notin> set gs) ks)
          @ Stop g # map (\<lambda>c. SetReg c h) (dropWhile (\<lambda>c. c \<notin> set gs) ks),
        registered h ks)"
proof -
  have regs: "assign h ks (pop_loop gs (assign g gs Map.empty)) = assign h ks Map.empty"
    by (auto simp: assign_def pop_loop_apply fun_eq_iff)
  have "add_loop truthy h ks (registered g gs)
     = (None,
        map (\<lambda>c. SetReg c h) (takeWhile (\<lambda>c. c \<notin> set gs) ks)
          @ Stop g # map (\<lambda>c. SetReg c h) (dropWhile (\<lambda>c. c \<notin> set gs) ks),
        \<lparr>reg = assign h ks (pop_loop gs (reg (registered g gs))),
          item_handlers = (item_handlers (registered g gs))(g := None)\<rparr>)"
    by (rule add_loop_takeover [where truthy = truthy and g = g, OF assms])
       (auto simp: registered_def assign_def)
  then show ?thesis
    by (simp add: add_def registered_def regs)
qed

lemma stop_calls_SetReg [simp]: "stop_calls (map (\<lambda>c. SetReg c h) ks) = []"
  by (simp add: stop_calls_def filter_empty_conv)

lemma stop_calls_Nil [simp]: "stop_calls [] = []"
  by (simp add: stop_calls_def)

lemma stop_calls_append [simp]: "stop_calls (xs @ ys) = stop_calls xs @ stop_calls ys"
  by (simp add: stop_calls_def)

lemma stop_calls_Stop [simp]: "stop_calls (Stop g # xs) = Stop g # stop_calls xs"
  by (simp add: stop_calls_def)

lemma add_all_from_registered:
  assumes "\<forall>c \<in> set calls. truthy (fst c) \<and> distinct (snd c) \<and> k \<in> set (snd c)"
    and "truthy g" and "k \<in> set gs"
  shows "fst (add_all truthy calls (registered g gs)) = None \<and>
         stop_calls (fst (snd (add_all truthy calls (registered g gs))))
           = map Stop (butlast (g # map fst calls)) \<and>
         snd (snd (add_all truthy calls (registered g gs)))
           = registered (last (g # map fst calls)) (last (gs # map snd calls))"
  using assms
proof (induction calls arbitrary: g gs)
  case Nil
  then show ?case by simp
next
  case (Cons c calls)
  obtain h ks where c: "c = (h, ks)" by (cases c)
  from Cons.prems c have h: "truthy h" and d: "distinct ks" and k: "k \<in> set ks"
    and rest: "\<forall>c \<in> set calls. truthy (fst c) \<and> distinct (snd c) \<and> k \<in> set (snd c)"
    by auto
  from k Cons.prems(3) have inter: "set ks \<inter> set gs \<noteq> {}" by auto
  note step = add_takeover [where truthy = truthy and g = g and h = h, OF Cons.prems(2) d inter]
  note ih = Cons.IH [where g = h and gs = ks, OF rest h k]
  show ?case
    unfolding c using ih by (simp add: step split_beta)
qed

text \<open>
  Truthy handlers are registered one after the other from the empty manager, each call
  passing pairwise distinct keys that include the shared key \<open>k\<close>. No call raises;
  afterwards a lookup of \<open>k\<close> returns the handler of the most recent call; and the
  calls of \<^verbatim>\<open>stop\<close> are exactly one for the handler of each call but the last, in
  the order of the calls. By \<open>add_takeover\<close> the stop comes before the first key of the
  previous owner is reassigned.
\<close>

lemma add_all_shared_key_truthy:
  assumes "calls \<noteq> []"
    and "\<forall>c \<in> set calls. truthy (fst c) \<and> distinct (snd c) \<and> k \<in> set (snd c)"
  shows "fst (add_all truthy calls EventManager_init) = None \<and>
         get (snd (snd (add_all truthy calls EventManager_init))) k = Some (fst (last calls)) \<and>
         stop_calls (fst (snd (add_all truthy calls EventManager_init)))
           = map Stop (butlast (map fst calls))"
proof -
  from assms(1) obtain c cs where calls: "calls = c # cs" by (cases calls) auto
  obtain h ks where c: "c = (h, ks)" by (cases c)
  from assms(2) calls c have h: "truthy h" and d: "distinct ks" and k: "k \<in> set ks"
    and rest: "\<forall>c \<in> set cs. truthy (fst c) \<and> distinct (snd c) \<and> k \<in> set (snd c)"
    by auto
  note first = add_first [OF d, of truthy h]
  note seq = add_all_from_registered [where truthy = truthy and g = h and gs = ks, OF rest h k]
  have lastk: "k \<in> set (last (ks # map snd cs))"
    using k rest by (cases "cs = []") (auto simp: last_map)
  have "get (registered (last (h # map fst cs)) (last (ks # map snd cs))) k
      = Some (last (h # map fst cs))"
    using lastk by (simp add: get_def registered_def assign_def)
  moreover have "last (h # map fst cs) = fst (last calls)"
    unfolding calls c by (cases "cs = []") (auto simp: last_map)
  ultimately show ?thesis
    unfolding calls c using seq by (simp add: first split_beta)
qed

subsection \<open>C1: the previous owner of a key is stopped once, if it is truthy\<close>

text \<open>
  C1 at an owner that is falsy. Handler 1, a view without items, is registered under the
  key \<open>a\<close>; then handler 2 is registered under \<open>a\<close>. Both calls return. The key goes
  to handler 2, but handler 1 is not stopped: no call of \<^verbatim>\<open>stop\<close> is made at all, and
  the key set recorded for handler 1 stays. With a truthy handler 1 the same calls stop
  it exactly once, before \<open>a\<close> is reassigned; and when both handlers are truthy and
  share the two keys \<open>a\<close> and the message 7, handler 1 is stopped exactly once as well,
  before the first of its keys is reassigned, and is gone from the registry.
\<close>

theorem add_falsy_owner_not_stopped:
  "add_all falsy_1 [(1, [CustomId ''a'']), (2, [CustomId ''a''])] EventManager_init
   = (None, [SetReg (CustomId ''a'') 1, SetReg (CustomId ''a'') 2],
      \<lparr>reg = [CustomId ''a'' \<mapsto> 2],
        item_handlers = [1 \<mapsto> [CustomId ''a''], 2 \<mapsto> [CustomId ''a'']]\<rparr>) \<and>
   stop_calls (fst (snd (add_all falsy_1 [(1, [CustomId ''a'']), (2, [CustomId ''a''])]
      EventManager_init))) = [] \<and>
   add_all all_truthy [(1, [CustomId ''a'']), (2, [CustomId ''a''])] EventManager_init
   = (None, [SetReg (CustomId ''a'') 1, Stop 1, SetReg (CustomId ''a'') 2],
      registered 2 [CustomId ''a'']) \<and>
   add_all all_truthy
     [(1, [CustomId ''a'', MessageId 7]), (2, [MessageId 7, CustomId ''a''])]
     EventManager_init
   = (None,
      [SetReg (CustomId ''a'') 1, SetReg (MessageId 7) 1, Stop 1, SetReg (MessageId 7) 2,
       SetReg (CustomId ''a'') 2],
      registered 2 [MessageId 7, CustomId ''a''])"
proof -
  have falsy: "add_all falsy_1 [(1, [CustomId ''a'']), (2, [CustomId ''a''])]
      EventManager_init
      = (None, [SetReg (CustomId ''a'') 1, SetReg (CustomId ''a'') 2],
         \<lparr>reg = [CustomId ''a'' \<mapsto> 2],
           item_handlers = [1 \<mapsto> [CustomId ''a''], 2 \<mapsto> [CustomId ''a'']]\<rparr>)"
    by (simp add: add_def evict_def EventManager_init_def falsy_1_def)
  have t: "all_truthy 1" by (simp add: all_truthy_def)
  have one: "add_all all_truthy [(1, [CustomId ''a'']), (2, [CustomId ''a''])]
      EventManager_init
      = (None, [SetReg (CustomId ''a'') 1, Stop 1, SetReg (CustomId ''a'') 2],
         registered 2 [CustomId ''a''])"
    using add_first [of "[CustomId ''a'']" all_truthy 1]
      add_takeover [where truthy = all_truthy and g = 1 and h = 2
        and ks = "[CustomId ''a'']" and gs = "[CustomId ''a'']", OF t]
    by simp
  have two: "add_all all_truthy
      [(1, [CustomId ''a'', MessageId 7]), (2, [MessageId 7, CustomId ''a''])]
      EventManager_init
      = (None,
         [SetReg (CustomId ''a'') 1, SetReg (MessageId 7) 1, Stop 1, SetReg (MessageId 7) 2,
          SetReg (CustomId ''a'') 2],
         registered 2 [MessageId 7, CustomId ''a''])"
    using add_first [of "[CustomId ''a'', MessageId 7]" all_truthy 1]
      add_takeover [where truthy = all_truthy and g = 1 and h = 2
        and ks = "[MessageId 7, CustomId ''a'']" and gs = "[CustomId ''a'', MessageId 7]",
        OF t]
    by simp
  show ?thesis
    unfolding falsy one two by (simp add: stop_calls_def)
qed

subsection \<open>C2: removing a handler that has no entry\<close>

text \<open>
  C2, as stated, fails: \<open>pop\<close> on a handler that was never registered raises
  \<^verbatim>\<open>KeyError\<close>.
\<close>

theorem pop_never_registered_counterexample:
  "fst (pop 1 EventManager_init) = Some KeyError"
  by (simp add: pop_def EventManager_init_def)

text \<open>
  C2, amended. \<open>pop\<close> on a handler that has no recorded key set raises
  \<^verbatim>\<open>KeyError\<close> and leaves the manager unchanged. On a handler that has one it
  completes without an exception, and a second \<open>pop\<close> of the same handler then raises
  \<^verbatim>\<open>KeyError\<close>, again leaving the manager unchanged.
\<close>

theorem pop_raises_unless_recorded:
  "(item_handlers em h = None \<longrightarrow> pop h em = (Some KeyError, em)) \<and>
   (item_handlers em h \<noteq> None \<longrightarrow>
      fst (pop h em) = None \<and>
      pop h (snd (pop h em)) = (Some KeyError, snd (pop h em)))"
  by (auto simp: pop_def)

theorem pop_raises_unless_recorded_witness:
  "item_handlers EventManager_init 1 = None \<and>
   pop 1 EventManager_init = (Some KeyError, EventManager_init) \<and>
   item_handlers (snd (snd (add all_truthy 1 [CustomId ''a''] EventManager_init))) 1 \<noteq> None \<and>
   fst (pop 1 (snd (snd (add all_truthy 1 [CustomId ''a''] EventManager_init)))) = None \<and>
   fst (pop 1 (snd (pop 1 (snd (snd (add all_truthy 1 [CustomId ''a''] EventManager_init)))))) = Some KeyError"
  using pop_raises_unless_recorded [of EventManager_init 1]
    pop_raises_unless_recorded
      [of "snd (snd (add all_truthy 1 [CustomId ''a''] EventManager_init))" 1]
  by (simp add: add_def evict_def EventManager_init_def)

subsection \<open>C3: which keys a removal purges\<close>

text \<open>
  C3, as stated, fails: handler 1 is registered under \<open>a\<close>, then under \<open>b\<close>; its
  removal completes, and a lookup of its former key \<open>a\<close> still returns it. Each call of
  \<open>add\<close> replaces the key set recorded for the handler.
\<close>

theorem pop_keeps_earlier_keys_counterexample:
  "fst (pop 1 (snd (snd (add all_truthy 1 [CustomId ''b'']
          (snd (snd (add all_truthy 1 [CustomId ''a''] EventManager_init)))))))
     = None \<and>
   get (snd (pop 1 (snd (snd (add all_truthy 1 [CustomId ''b'']
          (snd (snd (add all_truthy 1 [CustomId ''a''] EventManager_init))))))))
     (CustomId ''a'') = Some 1"
  by (simp add: add_def evict_def pop_def get_def EventManager_init_def)

text \<open>
  A handler that a later registration has evicted is gone from the registry already:
  handler 1 is registered under \<open>a\<close> and the message 7, handler 2 takes \<open>a\<close> over, which
  stops handler 1 and purges both its keys. A removal of handler 1 then raises
  \<^verbatim>\<open>KeyError\<close>, and \<open>a\<close> belongs to handler 2.
\<close>

lemma pop_after_eviction_raises:
  "fst (pop 1 (snd (snd (add_all all_truthy
      [(1, [CustomId ''a'', MessageId 7]), (2, [CustomId ''a''])] EventManager_init))))
     = Some KeyError \<and>
   get (snd (snd (add_all all_truthy
      [(1, [CustomId ''a'', MessageId 7]), (2, [CustomId ''a''])] EventManager_init)))
     (CustomId ''a'') = Some 2 \<and>
   get (snd (snd (add_all all_truthy
      [(1, [CustomId ''a'', MessageId 7]), (2, [CustomId ''a''])] EventManager_init)))
     (MessageId 7) = None"
  by (simp add: add_def evict_def stop_def pop_def get_def EventManager_init_def
      all_truthy_def)

text \<open>
  C3, amended. A call of \<open>add\<close> registers handler \<open>h\<close> under the keys \<open>ks\<close> and
  returns; then any calls of \<open>add\<close> for other handlers follow, none of which stops
  \<open>h\<close>. The removal of \<open>h\<close> completes without an exception, and afterwards a lookup of
  any key of \<open>ks\<close>, the keys of the most recent registration of \<open>h\<close>, returns nothing.
\<close>

theorem pop_purges_latest_keys:
  assumes "add truthy h ks em = (None, effs, em1)"
    and "\<forall>c \<in> set calls. fst c \<noteq> h"
    and "Stop h \<notin> set (fst (snd (add_all truthy calls em1)))"
    and "k \<in> set ks"
  shows "fst (pop h (snd (snd (add_all truthy calls em1)))) = None \<and>
         get (snd (pop h (snd (snd (add_all truthy calls em1))))) k = None"
proof -
  let ?em2 = "snd (snd (add_all truthy calls em1))"
  have "item_handlers ?em2 h = item_handlers em1 h"
    by (rule add_all_item_handlers_other [OF assms(2,3)])
  with add_recorded [OF assms(1)] have rec: "item_handlers ?em2 h = Some ks" by simp
  then show ?thesis
    using pop_loop_in [OF assms(4)] by (simp add: pop_def get_def)
qed

theorem pop_purges_latest_keys_witness:
  "add all_truthy 1 [CustomId ''a'', MessageId 7] EventManager_init
   = (None, [SetReg (CustomId ''a'') 1, SetReg (MessageId 7) 1],
      registered 1 [CustomId ''a'', MessageId 7]) \<and>
   fst (snd (add_all all_truthy [(2, [CustomId ''b'']), (3, [CustomId ''b''])]
      (registered 1 [CustomId ''a'', MessageId 7])))
   = [SetReg (CustomId ''b'') 2, Stop 2, SetReg (CustomId ''b'') 3] \<and>
   item_handlers (snd (snd (add_all all_truthy [(2, [CustomId ''b'']), (3, [CustomId ''b''])]
      (registered 1 [CustomId ''a'', MessageId 7])))) 2 = None \<and>
   get (snd (snd (add_all all_truthy [(2, [CustomId ''b'']), (3, [CustomId ''b''])]
      (registered 1 [CustomId ''a'', MessageId 7])))) (CustomId ''a'') = Some 1 \<and>
   fst (pop 1 (snd (snd (add_all all_truthy [(2, [CustomId ''b'']), (3, [CustomId ''b''])]
      (registered 1 [CustomId ''a'', MessageId 7]))))) = None \<and>
   get (snd (pop 1 (snd (snd (add_all all_truthy [(2, [CustomId ''b'']), (3, [CustomId ''b''])]
      (registered 1 [CustomId ''a'', MessageId 7])))))) (CustomId ''a'') = None \<and>
   get (snd (pop 1 (snd (snd (add_all all_truthy [(2, [CustomId ''b'']), (3, [CustomId ''b''])]
      (registered 1 [CustomId ''a'', MessageId 7])))))) (MessageId 7) = None"
proof -
  have first: "add all_truthy 1 [CustomId ''a'', MessageId 7] EventManager_init
      = (None, [SetReg (CustomId ''a'') 1, SetReg (MessageId 7) 1],
         registered 1 [CustomId ''a'', MessageId 7])"
    using add_first [of "[CustomId ''a'', MessageId 7]" all_truthy 1] by simp
  have later: "fst (snd (add_all all_truthy [(2, [CustomId ''b'']), (3, [CustomId ''b''])]
        (registered 1 [CustomId ''a'', MessageId 7])))
      = [SetReg (CustomId ''b'') 2, Stop 2, SetReg (CustomId ''b'') 3]"
    by (simp add: add_def evict_def stop_def pop_def registered_def assign_def
        all_truthy_def)
  have before: "item_handlers (snd (snd (add_all all_truthy
        [(2, [CustomId ''b'']), (3, [CustomId ''b''])]
        (registered 1 [CustomId ''a'', MessageId 7])))) 2 = None \<and>
      get (snd (snd (add_all all_truthy [(2, [CustomId ''b'']), (3, [CustomId ''b''])]
        (registered 1 [CustomId ''a'', MessageId 7])))) (CustomId ''a'') = Some 1"
    by (simp add: add_def evict_def stop_def pop_def get_def registered_def assign_def
        all_truthy_def)
  have others: "\<forall>c \<in> set [(2, [CustomId ''b'']), (3, [CustomId ''b''])]. fst c \<noteq> (1::nat)"
    by simp
  have unstopped: "Stop 1 \<notin> set (fst (snd (add_all all_truthy
        [(2, [CustomId ''b'']), (3, [CustomId ''b''])]
        (registered 1 [CustomId ''a'', MessageId 7]))))"
    unfolding later by simp
  from pop_purges_latest_keys [OF first others unstopped, of "CustomId ''a''"]
    pop_purges_latest_keys [OF first others unstopped, of "MessageId 7"]
    first later before
  show ?thesis by simp
qed

section \<open>Properties of the dispatcher\<close>

subsection \<open>C8: which events are routed, and to whom\<close>

text \<open>
  C8, as stated, fails: a modal submission that was not issued against a message is
  dropped although its own component identifier \<open>a\<close> resolves to the registered,
  truthy handler 1. The delegate is not called.
\<close>

theorem on_inter_drops_modal_without_message_counterexample:
  "get (snd (snd (add all_truthy 1 [CustomId ''a''] EventManager_init))) (CustomId ''a'')
     = Some 1 \<and>
   all_truthy 1 \<and>
   on_inter all_truthy record_delegate
     (snd (snd (add all_truthy 1 [CustomId ''a''] EventManager_init)))
     (modal_submit ''a'' None) [] = (None, [])"
  by (simp add: on_inter_def add_def evict_def get_def modal_submit_def
      EventManager_init_def all_truthy_def)

text \<open>
  C8, amended. An event whose interaction is neither a component action nor a modal
  submission is dropped; so is an event whose interaction has no message, before any
  lookup. A component action or modal submission issued against the message \<open>m\<close> is
  delegated to the handler registered under its own component identifier, if there is
  one and it is truthy; otherwise to the handler registered under \<open>m\<close>, if there is one
  and it is truthy; otherwise it is dropped. A dropped event raises nothing and leaves
  the state as it was. So, among truthy handlers, the component identifier is preferred,
  the message identifier is the fallback, and an event that resolves to no handler is
  dropped.
\<close>

theorem on_inter_routing:
  "(kind (interaction event) \<noteq> Component \<and> kind (interaction event) \<noteq> Modal \<longrightarrow>
      on_inter truthy process events event w = (None, w)) \<and>
   (message (interaction event) = None \<longrightarrow>
      on_inter truthy process events event w = (None, w)) \<and>
   ((kind (interaction event) = Component \<or> kind (interaction event) = Modal) \<and>
    message (interaction event) = Some m \<longrightarrow>
      on_inter truthy process events event w =
        (case get events (CustomId (inter_custom_id (interaction event))) of
           Some h \<Rightarrow>
             if truthy h then process h event w
             else (case get events (MessageId m) of
                     Some h' \<Rightarrow> if truthy h' then process h' event w else (None, w)
                   | None \<Rightarrow> (None, w))
         | None \<Rightarrow>
             (case get events (MessageId m) of
                Some h' \<Rightarrow> if truthy h' then process h' event w else (None, w)
              | None \<Rightarrow> (None, w))))"
  by (auto simp: on_inter_def py_or_def split: option.splits)

theorem on_inter_routing_witness:
  "on_inter all_truthy record_delegate example_events slash_command [] = (None, []) \<and>
   on_inter all_truthy record_delegate example_events (modal_submit ''a'' None) []
     = (None, []) \<and>
   on_inter all_truthy record_delegate example_events (click ''a'') [] = (None, [1]) \<and>
   on_inter all_truthy record_delegate example_events (click ''z'') [] = (None, [2]) \<and>
   on_inter all_truthy record_delegate EventManager_init (click ''z'') [] = (None, []) \<and>
   on_inter falsy_1 record_delegate example_events (click ''a'') [] = (None, [2])"
  using on_inter_routing [of slash_command all_truthy record_delegate example_events "[]" 7]
    on_inter_routing [of "modal_submit ''a'' None" all_truthy record_delegate example_events
      "[]" 7]
    on_inter_routing [of "click ''a''" all_truthy record_delegate example_events "[]" 7]
    on_inter_routing [of "click ''z''" all_truthy record_delegate example_events "[]" 7]
    on_inter_routing [of "click ''z''" all_truthy record_delegate EventManager_init "[]" 7]
    on_inter_routing [of "click ''a''" falsy_1 record_delegate example_events "[]" 7]
  by (simp add: example_events_def get_def slash_command_def modal_submit_def click_def
      record_delegate_def EventManager_init_def all_truthy_def falsy_1_def)

section \<open>Properties of the view\<close>

lemma py_all_iff: "py_all bs \<longleftrightarrow> (\<forall>b \<in> set bs. b)"
  by (induction bs) auto

subsection \<open>C6: persistence\<close>

text \<open>
  C6. A view is persistent if and only if its timeout is unset and every one of its
  items is a \<^verbatim>\<open>ViewItem\<close> whose \<^verbatim>\<open>_persistent\<close> flag is set; a single item that
  is not makes the view non-persistent, whatever the timeout.
\<close>

theorem is_persistent_iff:
  "(is_persistent self \<longleftrightarrow>
      timeout self = None \<and>
      (\<forall>item \<in> set (children self). is_ViewItem item \<and> persistent item)) \<and>
   (\<forall>item \<in> set (children self).
      \<not> (is_ViewItem item \<and> persistent item) \<longrightarrow> \<not> is_persistent self)"
  by (auto simp: is_persistent_def py_all_iff)

theorem is_persistent_iff_witness:
  "is_persistent (example_view [button ''a'' True, button ''b'' True] None) \<and>
   \<not> is_persistent (example_view [button ''a'' True, button ''b'' False] None) \<and>
   \<not> is_persistent (example_view [button ''a'' True] (Some 120))"
  using is_persistent_iff [of "example_view [button ''a'' True, button ''b'' True] None"]
    is_persistent_iff [of "example_view [button ''a'' True, button ''b'' False] None"]
    is_persistent_iff [of "example_view [button ''a'' True] (Some 120)"]
  by (simp add: example_view_def button_def)

subsection \<open>C7: re-registering a persistent view\<close>

lemma start_listener_result:
  "start_listener truthy self events =
     (if is_persistent self then (Some AttributeError, [], events)
      else (Some ValueError, [], events))"
  by (simp add: start_listener_def EventManager_getattr_def)

text \<open>
  C7 at a persistent view with one item: \<open>start_listener\<close> raises
  \<^verbatim>\<open>AttributeError\<close>, because the manager has no attribute \<^verbatim>\<open>subscribe\<close>, and
  registers nothing: the manager is as it was, and a lookup of the item's component
  identifier returns nothing.
\<close>

theorem start_listener_persistent_raises:
  "is_persistent (example_view [button ''a'' True] None) \<and>
   start_listener truthy (example_view [button ''a'' True] None) EventManager_init
     = (Some AttributeError, [], EventManager_init) \<and>
   get (snd (snd (start_listener truthy (example_view [button ''a'' True] None)
       EventManager_init)))
     (CustomId ''a'') = None"
  by (simp add: start_listener_result is_persistent_def example_view_def button_def
      get_def EventManager_init_def)

subsection \<open>C9: an event that matches no item\<close>

text \<open>
  C9. When no item of the view has the component identifier of the event, processing
  returns without an exception, creates no task, and leaves the whole state as it was:
  the last context, the input flag and the items included.
\<close>

theorem process_interactions_no_match:
  "\<forall>item \<in> set (children (view s)).
      custom_id item \<noteq> Some (inter_custom_id (interaction event)) \<Longrightarrow>
   process_interactions event s = (None, [], s)"
proof -
  assume "\<forall>item \<in> set (children (view s)).
      custom_id item \<noteq> Some (inter_custom_id (interaction event))"
  then have "filter (\<lambda>item. custom_id item = Some (inter_custom_id (interaction event)))
      (children (view s)) = []"
    by (simp add: filter_empty_conv)
  then show ?thesis
    by (simp add: process_interactions_def Let_def)
qed

theorem process_interactions_no_match_witness:
  "process_interactions (click ''z'') (example_state two_buttons)
   = (None, [], example_state two_buttons)"
  using process_interactions_no_match [of "example_state two_buttons" "click ''z''"]
  by (simp add: example_state_def two_buttons_def example_view_def button_def click_def)

subsection \<open>C10: reading the last context before any event\<close>

text \<open>
  C10. While \<^verbatim>\<open>_last_context\<close> is \<^verbatim>\<open>None\<close>, reading the property
  \<^verbatim>\<open>last_context\<close> raises \<^verbatim>\<open>AssertionError\<close>; it does not return \<^verbatim>\<open>None\<close>.
\<close>

theorem last_context_unset_raises:
  "priv_last_context self = None \<Longrightarrow> last_context self = Inl AssertionError"
  by (simp add: last_context_def)

theorem last_context_unset_raises_witness:
  "priv_last_context two_buttons = None \<and> last_context two_buttons = Inl AssertionError"
  using last_context_unset_raises [of two_buttons]
  by (simp add: two_buttons_def example_view_def)

section \<open>Properties of the callback task\<close>

lemma inputted_set_clear_now [simp]: "now (inputted_set_clear s) = now s"
  by (simp add: inputted_set_clear_def Let_def)




lemma try_due:
  "refresh e item (ctx_interaction context) (inputted_set_clear s) = (None, s3) \<Longrightarrow>
   callback e item context s3 = (None, s4) \<Longrightarrow>
   autodefer_due context (now s) s4 \<Longrightarrow>
   handle_callback_try e item context s
   = (fst (context_defer e context s4),
      [WakeWaiters, Refresh item (ctx_interaction context), Callback item context,
       Defer context],
      snd (context_defer e context s4))"
  by (simp add: handle_callback_try_def Let_def split_beta)

lemma try_not_due:
  "refresh e item (ctx_interaction context) (inputted_set_clear s) = (None, s3) \<Longrightarrow>
   callback e item context s3 = (None, s4) \<Longrightarrow>
   \<not> autodefer_due context (now s) s4 \<Longrightarrow>
   handle_callback_try e item context s
   = (None, [WakeWaiters, Refresh item (ctx_interaction context), Callback item context],
      s4)"
  by (simp add: handle_callback_try_def Let_def)






subsection \<open>C4: when the implicit deferred reply is issued\<close>

text \<open>
  C4. The task starts in state \<open>s\<close>; the refresh returns, and the callback returns in
  state \<open>s4\<close>. If then, in \<open>s4\<close>, no reply has been issued on the interaction, the
  view's autodefer flag is set, and at most 3 seconds have passed since the clock reading
  at the start of the task, the task calls \<^verbatim>\<open>context.defer()\<close>: it ends in the state
  in which that call ends, with the outcome of that call (an exception of the call is
  handled like any other exception inside the task). Otherwise the task ends after the
  callback: it does nothing more, raises nothing, and leaves the state as the callback
  left it, so a callback that issued no reply leaves the interaction without any reply.
  So the deferred reply is issued if and only if the three conditions hold; when more
  than 3 seconds have passed (5 seconds, say) it is not.
\<close>

theorem autodefer_iff:
  assumes "refresh e item (ctx_interaction context) (inputted_set_clear s) = (None, s3)"
    and "callback e item context s3 = (None, s4)"
  shows "(inter_id (ctx_interaction context) \<notin> issued_response s4
            \<and> autodefer (view s4) \<and> now s4 - now s \<le> 3000000
          \<longrightarrow> handle_callback e item context s
              = (case context_defer e context s4 of
                   (None, s5) \<Rightarrow>
                     (None,
                      [WakeWaiters, Refresh item (ctx_interaction context),
                       Callback item context, Defer context],
                      s5)
                 | (Some error, s5) \<Rightarrow>
                     if is_Exception error
                     then (None,
                           [WakeWaiters, Refresh item (ctx_interaction context),
                            Callback item context, Defer context]
                           @ on_error (item_truthy e) (view s5) error (Some item)
                               (Some context),
                           s5)
                     else (Some error,
                           [WakeWaiters, Refresh item (ctx_interaction context),
                            Callback item context, Defer context],
                           s5)))
       \<and> (\<not> (inter_id (ctx_interaction context) \<notin> issued_response s4
               \<and> autodefer (view s4) \<and> now s4 - now s \<le> 3000000)
          \<longrightarrow> handle_callback e item context s
              = (None, [WakeWaiters, Refresh item (ctx_interaction context),
                        Callback item context], s4))
       \<and> (Defer context \<in> set (fst (snd (handle_callback e item context s)))
          \<longleftrightarrow> inter_id (ctx_interaction context) \<notin> issued_response s4
              \<and> autodefer (view s4) \<and> now s4 - now s \<le> 3000000)
       \<and> (3000000 < now s4 - now s \<longrightarrow>
            handle_callback e item context s
            = (None, [WakeWaiters, Refresh item (ctx_interaction context),
                      Callback item context], s4))"
proof -
  let ?due = "autodefer_due context (now s) s4"
  let ?pre = "[WakeWaiters, Refresh item (ctx_interaction context), Callback item context]"
  have due_eq: "?due \<longleftrightarrow> inter_id (ctx_interaction context) \<notin> issued_response s4
      \<and> autodefer (view s4) \<and> now s4 - now s \<le> 3000000"
    by (simp add: autodefer_due_def)
  have yes: "?due \<Longrightarrow> handle_callback e item context s
      = (case context_defer e context s4 of
           (None, s5) \<Rightarrow>
             (None,
              [WakeWaiters, Refresh item (ctx_interaction context),
               Callback item context, Defer context],
              s5)
         | (Some error, s5) \<Rightarrow>
             if is_Exception error
             then (None,
                   [WakeWaiters, Refresh item (ctx_interaction context),
                    Callback item context, Defer context]
                   @ on_error (item_truthy e) (view s5) error (Some item) (Some context),
                   s5)
             else (Some error,
                   [WakeWaiters, Refresh item (ctx_interaction context),
                    Callback item context, Defer context],
                   s5))"
    using try_due [OF assms]
    by (cases "context_defer e context s4")
       (auto simp: handle_callback_def split: option.splits)
  have no: "\<not> ?due \<Longrightarrow> handle_callback e item context s
      = (None, [WakeWaiters, Refresh item (ctx_interaction context),
                Callback item context], s4)"
    using try_not_due [OF assms] by (simp add: handle_callback_def)
  have mem_yes: "Defer context \<in> set (fst (snd (handle_callback e item context s)))"
    if due: "?due"
    unfolding yes [OF due]
    by (cases "context_defer e context s4") (auto split: option.splits)
  have mem_no: "Defer context \<notin> set (fst (snd (handle_callback e item context s)))"
    if not_due: "\<not> ?due"
    unfolding no [OF not_due] by simp
  have late: "3000000 < now s4 - now s \<Longrightarrow> \<not> ?due"
    by (simp add: autodefer_due_def)
  show ?thesis
    unfolding due_eq [symmetric]
    using yes no mem_yes mem_no late by blast
qed

theorem autodefer_iff_witness:
  "handle_callback (example_env 1000000 None) (button ''a'' True) click_a_context
      (example_state two_buttons)
   = (None,
      [WakeWaiters, Refresh (button ''a'' True) (interaction (click ''a'')),
       Callback (button ''a'' True) click_a_context, Defer click_a_context],
      (example_state two_buttons)\<lparr>now := 1000000, issued_response := {10}\<rparr>) \<and>
   handle_callback (example_env 5000000 None) (button ''a'' True) click_a_context
      (example_state two_buttons)
   = (None,
      [WakeWaiters, Refresh (button ''a'' True) (interaction (click ''a'')),
       Callback (button ''a'' True) click_a_context],
      (example_state two_buttons)\<lparr>now := 5000000\<rparr>) \<and>
   issued_response (snd (snd (handle_callback (example_env 5000000 None) (button ''a'' True)
      click_a_context (example_state two_buttons)))) = {}"
  using autodefer_iff [of "example_env 1000000 None" "button ''a'' True" click_a_context
      "example_state two_buttons" "example_state two_buttons"
      "(example_state two_buttons)\<lparr>now := 1000000\<rparr>"]
    autodefer_iff [of "example_env 5000000 None" "button ''a'' True" click_a_context
      "example_state two_buttons" "example_state two_buttons"
      "(example_state two_buttons)\<lparr>now := 5000000\<rparr>"]
  by (simp add: example_env_def example_state_def two_buttons_def example_view_def
      inputted_set_clear_def click_a_context_def get_context_def click_def)

subsection \<open>C5: an exception inside the task\<close>




end
